theory Spec2Isabelle
  imports Main "HOL-Library.Sublist" "HOL-Library.Multiset"
begin

section \<open>The templateflow command line: data\<close>

text \<open>
  The module \<^verbatim>\<open>templateflow/cli.py\<close> is sequential glue around a template-resolution
  API, a storage client run as a subprocess, a remote listing API and a dataset-versioning
  API. The answers of these collaborators and of the operating system are collected in a
  record \<open>world\<close>; every effect the module performs is logged, in program order, as an
  \<open>event\<close>. An operation yields \<open>Some (Inr ())\<close> when it returns, \<open>Some (Inl e)\<close> when it
  raises \<open>e\<close>, and \<open>None\<close> when it never returns, together with the events performed.
\<close>

datatype error =
    AssertionError string
  | RuntimeError string
  | OSError string

text \<open>A value of a keyword argument: what \<^verbatim>\<open>vars(pargs)\<close> can hold.\<close>

datatype pyval =
    VNone
  | VStr string
  | VBool bool
  | VList "string list"
  | VDict "(string \<times> string) list"

text \<open>
  One entry of the \<^verbatim>\<open>"data"\<close> array of a remote listing:
  \<^verbatim>\<open>{attributes: {name, kind}, links: {move, download}}\<close>.
\<close>

record item =
  attr_name :: string
  attr_kind :: string
  link_move :: string
  link_download :: string

text \<open>The \<^verbatim>\<open>files\<close> argument of \<^verbatim>\<open>upload\<close>: \<^verbatim>\<open>None\<close>, a list of strings, or any other object.\<close>

datatype pyfiles = FNone | FList "string list" | FOther

datatype event =
    Print string
  | PrintHelp
  | TfGet string "(string \<times> pyval) list"
  | SpRun "string list"
  | JsonFromUrl string
  | WriteText string string
  | Mkdtemp string
  | Copy2 string string
  | AddUrls string string string "string option"
  | Publish

record world =
  getenv :: "string \<Rightarrow> string option"
  glob :: "string \<Rightarrow> string list"
  sp_run :: "string list \<Rightarrow> int"
  url_from_key :: "string \<Rightarrow> string"
  json_from_url :: "string \<Rightarrow> item list"
  uuid4 :: string
  mkdtemp :: string
  is_file :: "string \<Rightarrow> bool"
  tfget :: "string \<Rightarrow> (string \<times> pyval) list \<Rightarrow> string option list"

text \<open>
  \<open>sp_run\<close> is the return code of the subprocess for a command line; \<open>json_from_url\<close> is
  the \<^verbatim>\<open>"data"\<close> array the listing API answers for a URL; \<open>is_file\<close> says whether a path
  names a file that \<^verbatim>\<open>shutil.copy2\<close> can copy; \<open>tfget\<close> is the sequence the resolution API
  answers, each entry the text of a path or \<^verbatim>\<open>None\<close>.
\<close>

record upload_args =
  template :: string
  files :: pyfiles
  force :: bool
  osf_pass :: "string option"
  osf_dest :: "string option"
  message :: "string option"

text \<open>The namespace \<^verbatim>\<open>parse_args\<close> produces for the parser of \<^verbatim>\<open>get_parser\<close>.\<close>

datatype namespace =
    NoCommand
  | GetNS string "(string \<times> string) list"
  | UploadNS string "string list option" "string option" "string option" "string option" bool

definition TEMPLATEFLOW_PROJECT_KEY :: string where
  "TEMPLATEFLOW_PROJECT_KEY = ''ue5gx''"

section \<open>Strings\<close>

definition newline :: string where
  "newline = [CHR 0x0A]"

text \<open>\<^verbatim>\<open>sep.join(xs)\<close>\<close>

fun join :: "string \<Rightarrow> string list \<Rightarrow> string" where
  "join sep [] = []"
| "join sep [x] = x"
| "join sep (x # y # ys) = x @ sep @ join sep (y # ys)"

text \<open>\<^verbatim>\<open>s.startswith(p)\<close>\<close>

definition startswith :: "string \<Rightarrow> string \<Rightarrow> bool" where
  "startswith s p = (take (length p) s = p)"

text \<open>\<^verbatim>\<open>t in s\<close> on strings: some slice of \<open>s\<close> equals \<open>t\<close>.\<close>

fun str_in :: "string \<Rightarrow> string \<Rightarrow> bool" where
  "str_in t [] = (t = [])"
| "str_in t (c # cs) = (startswith (c # cs) t \<or> str_in t cs)"

text \<open>The decimal text of a length, as \<^verbatim>\<open>"{}".format(len(fls))\<close> renders it.\<close>

definition digit :: "nat \<Rightarrow> char" where
  "digit d = ''0123456789'' ! d"

function str_nat :: "nat \<Rightarrow> string" where
  "str_nat n = (if n < 10 then [digit n] else str_nat (n div 10) @ [digit (n mod 10)])"
  by pat_completeness auto
termination
  by (relation "measure (\<lambda>n. n)") auto

text \<open>Truthiness of an optional string: \<^verbatim>\<open>None\<close> and the empty string are false.\<close>

fun truthy :: "string option \<Rightarrow> bool" where
  "truthy None = False"
| "truthy (Some s) = (s \<noteq> [])"

section \<open>get\<close>

text \<open>The argument of \<^verbatim>\<open>print\<close> in \<^verbatim>\<open>get\<close>, for the sequence \<open>fls\<close> the API returned.\<close>

definition path_lines :: "string option list \<Rightarrow> string list" where
  "path_lines fls = map the (filter truthy fls)"

definition get_output :: "string option list \<Rightarrow> string" where
  "get_output fls =
     ''Got '' @ str_nat (length fls) @ '' files''
       @ (if fls \<noteq> [] then '':'' @ newline else [])
       @ join newline (path_lines fls)"

definition get :: "world \<Rightarrow> string \<Rightarrow> (string \<times> pyval) list \<Rightarrow> (error + unit) option \<times> event list" where
  "get w tpl kwargs =
     (let fls = tfget w (drop 4 tpl) kwargs
      in (Some (Inr ()), [TfGet (drop 4 tpl) kwargs, Print (get_output fls)]))"

section \<open>upload\<close>

text \<open>Lines 63 to 67: the loop that extends the command line.\<close>

fun expand_files :: "world \<Rightarrow> string list \<Rightarrow> string list \<Rightarrow> string list" where
  "expand_files w osf_cmd [] = osf_cmd"
| "expand_files w osf_cmd (f # fs) =
     (if CHR ''*'' \<in> set f then expand_files w (osf_cmd @ glob w f) fs
      else expand_files w (osf_cmd @ [f]) fs)"

text \<open>Lines 78 to 82: the first top-level folder named as the template gives the URL.\<close>

fun find_url :: "string \<Rightarrow> item list \<Rightarrow> string option" where
  "find_url tpl [] = None"
| "find_url tpl (folder # rest) =
     (if attr_name folder = tpl then Some (link_move folder) else find_url tpl rest)"

text \<open>
  Lines 88 to 97: the work queue. The loop runs as long as the queue is not empty, and a
  listing that never runs out of folders keeps it running: \<open>None\<close> is that case.
\<close>

partial_function (option) traverse ::
  "world \<Rightarrow> string \<Rightarrow> item list \<Rightarrow> string list \<Rightarrow> event list
     \<Rightarrow> (string list \<times> event list) option" where
  "traverse w tpl items hits tr =
     (case items of
        [] \<Rightarrow> Some (hits, tr)
      | it # rest \<Rightarrow>
          if attr_kind it = ''folder''
          then traverse w tpl (rest @ json_from_url w (link_move it)) hits
                 (tr @ [JsonFromUrl (link_move it)])
          else if str_in tpl (attr_name it)
          then traverse w tpl rest (hits @ [join '','' [attr_name it, link_download it]]) tr
          else traverse w tpl rest hits tr)"

declare traverse.simps [code]

text \<open>Lines 111 and 112: the copies into the temporary directory, stopping at the first failure.\<close>

fun stage :: "world \<Rightarrow> string \<Rightarrow> string list \<Rightarrow> event list \<Rightarrow> (error + unit) \<times> event list" where
  "stage w tmp [] tr = (Inr (), tr)"
| "stage w tmp (f # fs) tr =
     (if is_file w f then stage w tmp fs (tr @ [Copy2 f tmp])
      else (Inl (OSError f), tr))"

text \<open>
  \<^verbatim>\<open>upload\<close>, lines 52 to 115. The template is a string, as \<^verbatim>\<open>main\<close> always passes one,
  and the \<^verbatim>\<open>assert\<close> of line 55 is active. The collaborators answer as the world says;
  an exception of their own would leave \<^verbatim>\<open>upload\<close> unchanged at the call and is not part
  of the model, except for the copy of a path that names no file. When the traversal
  never returns, the log holds the events up to the first listing of the traversal.
\<close>

definition resolve_pass :: "world \<Rightarrow> upload_args \<Rightarrow> string option" where
  "resolve_pass w a =
     (case osf_pass a of None \<Rightarrow> getenv w ''OSF_PASSWORD'' | Some p \<Rightarrow> Some p)"

definition osf_command :: "world \<Rightarrow> upload_args \<Rightarrow> string list \<Rightarrow> string list" where
  "osf_command w a fs =
     expand_files w ([''osf'', ''upload''] @ (if force a then [''-f''] else [])) fs
       @ [case osf_dest a of None \<Rightarrow> template a | Some d \<Rightarrow> d]"

definition upload :: "world \<Rightarrow> upload_args \<Rightarrow> (error + unit) option \<times> event list" where
  "upload w a =
     (if \<not> truthy (resolve_pass w a)
      then (Some (Inl (AssertionError ''OSF password is not set'')), [])
      else case files a of
        FNone \<Rightarrow> (Some (Inr ()), [Print ''No files given to upload''])
      | FOther \<Rightarrow> (Some (Inr ()), [Print ''No files given to upload''])
      | FList fs \<Rightarrow>
          (let osf_cmd = osf_command w a fs;
               tr = [SpRun osf_cmd]
           in if sp_run w osf_cmd \<noteq> 0
              then (Some (Inl (RuntimeError ''OSF upload error'')), tr)
              else
                (let top = url_from_key w TEMPLATEFLOW_PROJECT_KEY;
                     tr = tr @ [JsonFromUrl top]
                 in (case find_url (template a) (json_from_url w top) of
                       None \<Rightarrow>
                         (Some (Inl (RuntimeError (''No URL found for template '' @ template a))),
                          tr)
                     | Some url \<Rightarrow>
                         (case traverse w (template a) (json_from_url w url) [''name,link'']
                                 (tr @ [JsonFromUrl url]) of
                            None \<Rightarrow> (None, tr @ [JsonFromUrl url])
                          | Some (hits, tr) \<Rightarrow>
                              (let output_filename = ''tfupload-'' @ uuid4 w @ ''.csv'';
                                   tr = tr @ [WriteText output_filename (join newline hits)];
                                   tmp = mkdtemp w;
                                   tr = tr @ [Mkdtemp tmp]
                               in (case stage w tmp fs tr of
                                     (Inl e, tr) \<Rightarrow> (Some (Inl e), tr)
                                   | (Inr u, tr) \<Rightarrow>
                                       (Some (Inr ()),
                                        tr @ [AddUrls output_filename ''{link}'' ''{name}''
                                                (message a),
                                              Publish]))))))))"

section \<open>main\<close>

text \<open>Lines 125 and 126.\<close>

definition normalize_template :: "string \<Rightarrow> string" where
  "normalize_template t = (if \<not> startswith t ''tpl-'' then ''tpl-'' @ t else t)"

text \<open>
  \<^verbatim>\<open>vars(pargs)\<close>, after the template has been normalised: every attribute of the
  namespace, the subcommand's name included.
\<close>

fun vars :: "namespace \<Rightarrow> (string \<times> pyval) list" where
  "vars NoCommand = [(''command'', VNone)]"
| "vars (GetNS t kw) =
     [(''command'', VStr ''get''), (''template'', VStr t), (''kwargs'', VDict kw)]"
| "vars (UploadNS t fs p d m f) =
     [(''command'', VStr ''upload''), (''template'', VStr t),
      (''files'', case fs of None \<Rightarrow> VNone | Some l \<Rightarrow> VList l),
      (''osf_pass'', case p of None \<Rightarrow> VNone | Some s \<Rightarrow> VStr s),
      (''osf_dest'', case d of None \<Rightarrow> VNone | Some s \<Rightarrow> VStr s),
      (''message'', case m of None \<Rightarrow> VNone | Some s \<Rightarrow> VStr s),
      (''force'', VBool f)]"

text \<open>
  The keywords that a call unpacking the dictionary \<open>d\<close> leaves for the catch-all
  keyword parameter of the function called: those that are not among its named parameters.
\<close>

definition extra_kwargs :: "string list \<Rightarrow> (string \<times> pyval) list \<Rightarrow> (string \<times> pyval) list" where
  "extra_kwargs params d = filter (\<lambda>kv. fst kv \<notin> set params) d"

definition main :: "world \<Rightarrow> namespace \<Rightarrow> (error + unit) option \<times> event list" where
  "main w pargs =
     (case pargs of
        NoCommand \<Rightarrow> (Some (Inr ()), [PrintHelp])
      | GetNS t kw \<Rightarrow>
          get w (normalize_template t)
            (extra_kwargs [''template''] (vars (GetNS (normalize_template t) kw)))
      | UploadNS t fs p d m f \<Rightarrow>
          upload w \<lparr>template = normalize_template t,
                    files = (case fs of None \<Rightarrow> FNone | Some l \<Rightarrow> FList l),
                    force = f, osf_pass = p, osf_dest = d, message = m\<rparr>)"

section \<open>The remote listing as a folder tree\<close>

text \<open>
  A finite remote folder tree: a file, or a folder with its children. \<open>mirrors w t\<close> says
  that the listing API of \<open>w\<close> answers, for every folder of \<open>t\<close>, with the children the
  tree gives it, and that the \<^verbatim>\<open>kind\<close> attribute of every item tells folders from files.
\<close>

datatype rnode = RFile item | RFolder item "rnode list"

fun root_item :: "rnode \<Rightarrow> item" where
  "root_item (RFile it) = it"
| "root_item (RFolder it cs) = it"

fun mirrors :: "world \<Rightarrow> rnode \<Rightarrow> bool" where
  "mirrors w (RFile it) = (attr_kind it \<noteq> ''folder'')"
| "mirrors w (RFolder it cs) =
     (attr_kind it = ''folder'' \<and> json_from_url w (link_move it) = map root_item cs
        \<and> (\<forall>c \<in> set cs. mirrors w c))"

fun files_of :: "rnode \<Rightarrow> item list" where
  "files_of (RFile it) = [it]"
| "files_of (RFolder it cs) = concat (map files_of cs)"

fun nodes :: "rnode \<Rightarrow> nat" where
  "nodes (RFile it) = 1"
| "nodes (RFolder it cs) = Suc (sum_list (map nodes cs))"

text \<open>
  The files of a forest in the order in which a queue meets them when the children of a
  folder are put at the end of the queue.
\<close>

function bfs_files :: "rnode list \<Rightarrow> item list" where
  "bfs_files [] = []"
| "bfs_files (RFile it # rest) = it # bfs_files rest"
| "bfs_files (RFolder it cs # rest) = bfs_files (rest @ cs)"
  by pat_completeness auto
termination
  by (relation "measure (\<lambda>ts. sum_list (map nodes ts))") auto

section \<open>Reading the event log\<close>

fun is_WriteText :: "event \<Rightarrow> bool" where
  "is_WriteText (WriteText f t) = True"
| "is_WriteText e = False"

fun is_JsonFromUrl :: "event \<Rightarrow> bool" where
  "is_JsonFromUrl (JsonFromUrl u) = True"
| "is_JsonFromUrl e = False"

fun is_SpRun :: "event \<Rightarrow> bool" where
  "is_SpRun (SpRun c) = True"
| "is_SpRun e = False"

fun is_Copy2 :: "event \<Rightarrow> bool" where
  "is_Copy2 (Copy2 f d) = True"
| "is_Copy2 e = False"

text \<open>The steps that follow the lookup of the destination URL.\<close>

fun after_lookup :: "event \<Rightarrow> bool" where
  "after_lookup (WriteText f t) = True"
| "after_lookup (Mkdtemp d) = True"
| "after_lookup (Copy2 f d) = True"
| "after_lookup (AddUrls f l n m) = True"
| "after_lookup Publish = True"
| "after_lookup e = False"

section \<open>A sample world\<close>

text \<open>
  A project with two top-level folders; the folder of template \<^verbatim>\<open>tpl-x\<close> holds three files
  and, between them, a subfolder with one more file. Locally there are two image files.
\<close>

definition demo_listing :: "string \<Rightarrow> item list" where
  "demo_listing u =
     (if u = ''osf:ue5gx'' then
        [\<lparr>attr_name = ''tpl-other'', attr_kind = ''folder'', link_move = ''m0'', link_download = []\<rparr>,
         \<lparr>attr_name = ''tpl-x'', attr_kind = ''folder'', link_move = ''m1'', link_download = []\<rparr>]
      else if u = ''m1'' then
        [\<lparr>attr_name = ''tpl-x_T1w.nii'', attr_kind = ''file'', link_move = ''f1'', link_download = ''d1''\<rparr>,
         \<lparr>attr_name = ''sub'', attr_kind = ''folder'', link_move = ''m2'', link_download = []\<rparr>,
         \<lparr>attr_name = ''README'', attr_kind = ''file'', link_move = ''f2'', link_download = ''d2''\<rparr>,
         \<lparr>attr_name = ''tpl-x_desc.json'', attr_kind = ''file'', link_move = ''f4'', link_download = ''d4''\<rparr>]
      else if u = ''m2'' then
        [\<lparr>attr_name = ''tpl-x_mask.nii'', attr_kind = ''file'', link_move = ''f3'', link_download = ''d3''\<rparr>]
      else [])"

definition demo_forest :: "rnode list" where
  "demo_forest =
     [RFile \<lparr>attr_name = ''tpl-x_T1w.nii'', attr_kind = ''file'', link_move = ''f1'', link_download = ''d1''\<rparr>,
      RFolder \<lparr>attr_name = ''sub'', attr_kind = ''folder'', link_move = ''m2'', link_download = []\<rparr>
        [RFile \<lparr>attr_name = ''tpl-x_mask.nii'', attr_kind = ''file'', link_move = ''f3'', link_download = ''d3''\<rparr>],
      RFile \<lparr>attr_name = ''README'', attr_kind = ''file'', link_move = ''f2'', link_download = ''d2''\<rparr>,
      RFile \<lparr>attr_name = ''tpl-x_desc.json'', attr_kind = ''file'', link_move = ''f4'', link_download = ''d4''\<rparr>]"

definition demo_world :: world where
  "demo_world =
     \<lparr>getenv = (\<lambda>v. if v = ''OSF_PASSWORD'' then Some ''secret'' else None),
      glob = (\<lambda>p. if p = ''*.nii'' then [''a.nii'', ''b.nii''] else []),
      sp_run = (\<lambda>c. 0),
      url_from_key = (\<lambda>k. ''osf:'' @ k),
      json_from_url = demo_listing,
      uuid4 = ''1b4e28ba'',
      mkdtemp = ''/tmp/tmpq'',
      is_file = (\<lambda>p. p = ''a.nii'' \<or> p = ''b.nii''),
      tfget = (\<lambda>t kw. [Some ''/tf/tpl-x/a.nii'', None])\<rparr>"

definition demo_args :: "string list \<Rightarrow> upload_args" where
  "demo_args fs =
     \<lparr>template = ''tpl-x'', files = FList fs, force = False, osf_pass = None,
      osf_dest = None, message = None\<rparr>"

section \<open>Auxiliary facts\<close>

lemma expand_files_concat:
  "expand_files w cmd fs = cmd @ concat (map (\<lambda>f. if CHR ''*'' \<in> set f then glob w f else [f]) fs)"
  by (induction fs arbitrary: cmd) auto

lemma startswith_prefix: "startswith s p \<longleftrightarrow> prefix p s"
  unfolding startswith_def prefix_def
  by (metis append_eq_conv_conj append_take_drop_id)

lemma str_in_sublist: "str_in t s \<longleftrightarrow> sublist t s"
  by (induction s) (auto simp: startswith_prefix sublist_Cons_right)

lemma find_url_None: "find_url tpl xs = None \<longleftrightarrow> (\<forall>it \<in> set xs. attr_name it \<noteq> tpl)"
  by (induction xs) auto

lemma stage_eq:
  "stage w tmp fs tr =
     ((case dropWhile (is_file w) fs of [] \<Rightarrow> Inr () | f # rest \<Rightarrow> Inl (OSError f)),
      tr @ map (\<lambda>f. Copy2 f tmp) (takeWhile (is_file w) fs))"
  by (induction fs arbitrary: tr) auto

lemma upload_after_traverse:
  assumes "truthy (resolve_pass w a)" and "files a = FList fs"
    and "sp_run w (osf_command w a fs) = 0"
    and "find_url (template a) (json_from_url w (url_from_key w TEMPLATEFLOW_PROJECT_KEY)) = Some url"
    and "traverse w (template a) (json_from_url w url) [''name,link'']
           [SpRun (osf_command w a fs), JsonFromUrl (url_from_key w TEMPLATEFLOW_PROJECT_KEY),
            JsonFromUrl url] = Some (hits, tr)"
  shows "upload w a =
     ((case dropWhile (is_file w) fs of
         [] \<Rightarrow> Some (Inr ()) | f # rest \<Rightarrow> Some (Inl (OSError f))),
      tr @ [WriteText (''tfupload-'' @ uuid4 w @ ''.csv'') (join newline hits), Mkdtemp (mkdtemp w)]
         @ map (\<lambda>f. Copy2 f (mkdtemp w)) (takeWhile (is_file w) fs)
         @ (case dropWhile (is_file w) fs of
              [] \<Rightarrow> [AddUrls (''tfupload-'' @ uuid4 w @ ''.csv'') ''{link}'' ''{name}'' (message a),
                      Publish]
            | f # rest \<Rightarrow> []))"
  using assms
  by (cases "dropWhile (is_file w) fs")
     (simp_all add: upload_def Let_def stage_eq del: dropWhile_eq_Nil_conv)

lemma osf_command_eq:
  "osf_command w a fs =
     [''osf'', ''upload''] @ (if force a then [''-f''] else [])
       @ concat (map (\<lambda>f. if CHR ''*'' \<in> set f then glob w f else [f]) fs)
       @ [case osf_dest a of None \<Rightarrow> template a | Some d \<Rightarrow> d]"
  by (simp add: osf_command_def expand_files_concat)

lemma traverse_extends:
  assumes "traverse w tpl items hits tr = Some y"
  shows "\<exists>rows evs. y = (hits @ rows, tr @ evs) \<and> (\<forall>e \<in> set evs. is_JsonFromUrl e)"
  using assms
proof (induct rule: traverse.raw_induct[rotated, consumes 1])
  case (1 f w tpl items hits tr y)
  show ?case
  proof (cases items)
    case Nil
    with 1(2) have "y = (hits @ [], tr @ [])" by auto
    then show ?thesis by (intro exI[of _ "[]"]) simp
  next
    case (Cons it rest)
    consider (folder) "attr_kind it = ''folder''"
      | (hit) "attr_kind it \<noteq> ''folder''" "str_in tpl (attr_name it)"
      | (miss) "attr_kind it \<noteq> ''folder''" "\<not> str_in tpl (attr_name it)"
      by blast
    then show ?thesis
    proof cases
      case folder
      with 1(2) Cons have "f w tpl (rest @ json_from_url w (link_move it)) hits
          (tr @ [JsonFromUrl (link_move it)]) = Some y" by simp
      from 1(1)[OF this] obtain rows evs where
        "y = (hits @ rows, (tr @ [JsonFromUrl (link_move it)]) @ evs)"
        "\<forall>e \<in> set evs. is_JsonFromUrl e" by blast
      then have "y = (hits @ rows, tr @ (JsonFromUrl (link_move it) # evs))"
        "\<forall>e \<in> set (JsonFromUrl (link_move it) # evs). is_JsonFromUrl e" by simp_all
      then show ?thesis by blast
    next
      case hit
      with 1(2) Cons have "f w tpl rest
          (hits @ [join '','' [attr_name it, link_download it]]) tr = Some y" by simp
      from 1(1)[OF this] obtain rows evs where
        "y = ((hits @ [join '','' [attr_name it, link_download it]]) @ rows, tr @ evs)"
        "\<forall>e \<in> set evs. is_JsonFromUrl e" by blast
      then have "y = (hits @ (join '','' [attr_name it, link_download it] # rows), tr @ evs)"
        by simp
      with \<open>\<forall>e \<in> set evs. is_JsonFromUrl e\<close> show ?thesis by blast
    next
      case miss
      with 1(2) Cons have "f w tpl rest hits tr = Some y" by simp
      from 1(1)[OF this] show ?thesis .
    qed
  qed
qed

lemma upload_starts_with_run:
  assumes "truthy (resolve_pass w a)" and "files a = FList fs"
  shows "\<exists>rest. snd (upload w a) = SpRun (osf_command w a fs) # rest"
proof (cases "sp_run w (osf_command w a fs) = 0")
  case False
  with assms show ?thesis by (simp add: upload_def Let_def)
next
  case rc: True
  show ?thesis
  proof (cases "find_url (template a) (json_from_url w (url_from_key w TEMPLATEFLOW_PROJECT_KEY))")
    case None
    with assms rc show ?thesis by (simp add: upload_def Let_def)
  next
    case (Some url)
    show ?thesis
    proof (cases "traverse w (template a) (json_from_url w url) [''name,link'']
           [SpRun (osf_command w a fs), JsonFromUrl (url_from_key w TEMPLATEFLOW_PROJECT_KEY),
            JsonFromUrl url]")
      case None
      with assms rc Some show ?thesis by (simp add: upload_def Let_def)
    next
      case (Some y)
      obtain hits tr where y: "y = (hits, tr)" by (cases y)
      from traverse_extends[OF Some] y obtain evs where
        tr: "tr = [SpRun (osf_command w a fs),
                   JsonFromUrl (url_from_key w TEMPLATEFLOW_PROJECT_KEY), JsonFromUrl url] @ evs"
        by auto
      show ?thesis
        using upload_after_traverse[OF assms rc \<open>find_url _ _ = Some url\<close> Some[unfolded y]]
        by (simp add: tr)
    qed
  qed
qed

lemma no_write_in_listing_events:
  "\<forall>e \<in> set evs. is_JsonFromUrl e \<Longrightarrow> filter is_WriteText evs = []"
  by (induction evs) (auto elim: is_JsonFromUrl.elims)

lemma no_copy_in_listing_events:
  "\<forall>e \<in> set evs. is_JsonFromUrl e \<Longrightarrow> filter is_Copy2 evs = []"
  by (induction evs) (auto elim: is_JsonFromUrl.elims)

lemma no_write_in_copies: "filter is_WriteText (map (\<lambda>f. Copy2 f d) fs) = []"
  by (induction fs) auto

lemma all_copies: "filter is_Copy2 (map (\<lambda>f. Copy2 f d) fs) = map (\<lambda>f. Copy2 f d) fs"
  by (induction fs) auto

lemma length_path_lines:
  "length (path_lines fls) = length fls \<longleftrightarrow> (\<forall>f \<in> set fls. truthy f)"
proof (induction fls)
  case Nil
  then show ?case by (simp add: path_lines_def)
next
  case (Cons f fls)
  have "length (filter truthy fls) \<noteq> Suc (length fls)"
    using length_filter_le[of truthy fls] by arith
  with Cons show ?case by (auto simp: path_lines_def)
qed

lemma mset_bfs_files: "mset (bfs_files ts) = mset (concat (map files_of ts))"
  by (induction ts rule: bfs_files.induct) (simp_all add: ac_simps)

lemma join_lines:
  "join sep (h # rows) = h @ concat (map (\<lambda>r. sep @ r) rows)"
  by (induction rows arbitrary: h) simp_all

lemma traverse_bfs:
  assumes "\<forall>t \<in> set ts. mirrors w t"
  shows "\<exists>evs. traverse w tpl (map root_item ts) hits tr =
             Some (hits @ map (\<lambda>it. attr_name it @ '','' @ link_download it)
                          (filter (\<lambda>it. sublist tpl (attr_name it)) (bfs_files ts)),
                   tr @ evs)
           \<and> (\<forall>e \<in> set evs. is_JsonFromUrl e)"
  using assms
proof (induction ts arbitrary: hits tr rule: bfs_files.induct)
  case 1
  show ?case by (subst traverse.simps) simp
next
  case (2 it rest)
  have ok: "\<forall>t \<in> set rest. mirrors w t" and notfolder: "attr_kind it \<noteq> ''folder''"
    using "2.prems" by auto
  show ?case
  proof (cases "sublist tpl (attr_name it)")
    case True
    from "2.IH"[OF ok, of "hits @ [attr_name it @ '','' @ link_download it]" tr]
    obtain evs where
      r: "traverse w tpl (map root_item rest) (hits @ [attr_name it @ '','' @ link_download it]) tr
            = Some ((hits @ [attr_name it @ '','' @ link_download it])
                      @ map (\<lambda>it. attr_name it @ '','' @ link_download it)
                          (filter (\<lambda>it. sublist tpl (attr_name it)) (bfs_files rest)),
                    tr @ evs)"
      and e: "\<forall>e \<in> set evs. is_JsonFromUrl e"
      by blast
    have "traverse w tpl (map root_item (RFile it # rest)) hits tr =
             Some (hits @ map (\<lambda>it. attr_name it @ '','' @ link_download it)
                          (filter (\<lambda>it. sublist tpl (attr_name it)) (bfs_files (RFile it # rest))),
                   tr @ evs)"
      using r notfolder True by (subst traverse.simps) (simp add: str_in_sublist)
    with e show ?thesis by blast
  next
    case False
    from "2.IH"[OF ok, of hits tr]
    obtain evs where
      r: "traverse w tpl (map root_item rest) hits tr
            = Some (hits @ map (\<lambda>it. attr_name it @ '','' @ link_download it)
                          (filter (\<lambda>it. sublist tpl (attr_name it)) (bfs_files rest)),
                    tr @ evs)"
      and e: "\<forall>e \<in> set evs. is_JsonFromUrl e"
      by blast
    have "traverse w tpl (map root_item (RFile it # rest)) hits tr =
             Some (hits @ map (\<lambda>it. attr_name it @ '','' @ link_download it)
                          (filter (\<lambda>it. sublist tpl (attr_name it)) (bfs_files (RFile it # rest))),
                   tr @ evs)"
      using r notfolder False by (subst traverse.simps) (simp add: str_in_sublist)
    with e show ?thesis by blast
  qed
next
  case (3 it cs rest)
  have folder: "attr_kind it = ''folder''"
    and listing: "json_from_url w (link_move it) = map root_item cs"
    and ok: "\<forall>t \<in> set (rest @ cs). mirrors w t"
    using "3.prems" by auto
  from "3.IH"[OF ok, of hits "tr @ [JsonFromUrl (link_move it)]"]
  obtain evs where
    r: "traverse w tpl (map root_item (rest @ cs)) hits (tr @ [JsonFromUrl (link_move it)])
          = Some (hits @ map (\<lambda>it. attr_name it @ '','' @ link_download it)
                          (filter (\<lambda>it. sublist tpl (attr_name it)) (bfs_files (rest @ cs))),
                  (tr @ [JsonFromUrl (link_move it)]) @ evs)"
    and e: "\<forall>e \<in> set evs. is_JsonFromUrl e"
    by blast
  have "traverse w tpl (map root_item (RFolder it cs # rest)) hits tr =
           Some (hits @ map (\<lambda>it. attr_name it @ '','' @ link_download it)
                        (filter (\<lambda>it. sublist tpl (attr_name it))
                           (bfs_files (RFolder it cs # rest))),
                 tr @ (JsonFromUrl (link_move it) # evs))"
    using r folder listing by (subst traverse.simps) simp
  moreover have "\<forall>e \<in> set (JsonFromUrl (link_move it) # evs). is_JsonFromUrl e"
    using e by simp
  ultimately show ?case by blast
qed

lemma upload_on_tree:
  assumes "truthy (resolve_pass w a)" and "files a = FList fs"
    and "sp_run w (osf_command w a fs) = 0"
    and "find_url (template a) (json_from_url w (url_from_key w TEMPLATEFLOW_PROJECT_KEY)) = Some url"
    and "json_from_url w url = map root_item ts"
    and "\<forall>t \<in> set ts. mirrors w t"
  shows "\<exists>evs. (\<forall>e \<in> set evs. is_JsonFromUrl e) \<and> upload w a =
     ((case dropWhile (is_file w) fs of
         [] \<Rightarrow> Some (Inr ()) | f # rest \<Rightarrow> Some (Inl (OSError f))),
      ([SpRun (osf_command w a fs), JsonFromUrl (url_from_key w TEMPLATEFLOW_PROJECT_KEY),
        JsonFromUrl url] @ evs)
         @ [WriteText (''tfupload-'' @ uuid4 w @ ''.csv'')
              (''name,link'' @ concat (map (\<lambda>r. CHR 0x0A # r)
                 (map (\<lambda>it. attr_name it @ '','' @ link_download it)
                    (filter (\<lambda>it. sublist (template a) (attr_name it)) (bfs_files ts))))),
            Mkdtemp (mkdtemp w)]
         @ map (\<lambda>f. Copy2 f (mkdtemp w)) (takeWhile (is_file w) fs)
         @ (case dropWhile (is_file w) fs of
              [] \<Rightarrow> [AddUrls (''tfupload-'' @ uuid4 w @ ''.csv'') ''{link}'' ''{name}'' (message a),
                      Publish]
            | f # rest \<Rightarrow> []))"
proof -
  let ?tr0 = "[SpRun (osf_command w a fs), JsonFromUrl (url_from_key w TEMPLATEFLOW_PROJECT_KEY),
               JsonFromUrl url]"
  let ?rows = "map (\<lambda>it. attr_name it @ '','' @ link_download it)
                 (filter (\<lambda>it. sublist (template a) (attr_name it)) (bfs_files ts))"
  from traverse_bfs[OF assms(6), of "template a" "[''name,link'']" ?tr0]
  obtain evs where
    run: "traverse w (template a) (map root_item ts) [''name,link''] ?tr0
            = Some ([''name,link''] @ ?rows, ?tr0 @ evs)"
    and evs: "\<forall>e \<in> set evs. is_JsonFromUrl e"
    by blast
  have run': "traverse w (template a) (json_from_url w url) [''name,link''] ?tr0
            = Some (''name,link'' # ?rows, ?tr0 @ evs)"
    using run assms(5) by simp
  have manifest: "join newline (''name,link'' # ?rows)
                = ''name,link'' @ concat (map (\<lambda>r. CHR 0x0A # r) ?rows)"
    by (simp only: join_lines) (simp add: newline_def)
  show ?thesis
    using upload_after_traverse[OF assms(1-4) run'] evs unfolding manifest by blast
qed

lemmas demo_defs = demo_world_def demo_args_def demo_listing_def demo_forest_def
  resolve_pass_def TEMPLATEFLOW_PROJECT_KEY_def


section \<open>The claims about get and main\<close>

text \<open>
  Claim C5. The template argument that does not start with the literal prefix \<^verbatim>\<open>tpl-\<close>
  is normalised to \<^verbatim>\<open>tpl-\<close> followed by the argument; an argument that already starts with
  the prefix is left as it is.
\<close>

theorem normalize_template_prefix:
  "(\<not> prefix ''tpl-'' t \<longrightarrow> normalize_template t = ''tpl-'' @ t)
   \<and> (prefix ''tpl-'' t \<longrightarrow> normalize_template t = t)"
  by (simp add: normalize_template_def startswith_prefix)

theorem normalize_template_prefix_witness:
  "normalize_template ''fsLR'' = ''tpl-fsLR'' \<and> normalize_template ''tpl-fsLR'' = ''tpl-fsLR''"
proof -
  have h1: "\<not> prefix ''tpl-'' ''fsLR''" by simp
  have h2: "prefix ''tpl-'' ''tpl-fsLR''" by simp
  show ?thesis
    using normalize_template_prefix[of "''fsLR''"] normalize_template_prefix[of "''tpl-fsLR''"] h1 h2
    by simp
qed

text \<open>
  Claim C3. The claim says that \<^verbatim>\<open>get\<close>, run from the command line with no \<^verbatim>\<open>--kwargs\<close>,
  calls the resolution API with no keyword at all. In the code \<^verbatim>\<open>main\<close> hands the whole
  namespace to \<^verbatim>\<open>get\<close>, whose \<^verbatim>\<open>**kwargs\<close> then holds the subcommand's name and the
  (empty) filter dictionary under the key \<^verbatim>\<open>kwargs\<close>; both are forwarded to the API. The
  run of \<^verbatim>\<open>main(["get", "fsLR"])\<close>:
\<close>

theorem main_get_passes_namespace:
  "main w (GetNS ''fsLR'' []) =
     (Some (Inr ()),
      [TfGet ''fsLR'' [(''command'', VStr ''get''), (''kwargs'', VDict [])],
       Print (get_output (tfget w ''fsLR'' [(''command'', VStr ''get''), (''kwargs'', VDict [])]))])"
  by (simp add: main_def get_def normalize_template_def startswith_def extra_kwargs_def)

text \<open>
  Claim C4, as amended. \<^verbatim>\<open>get\<close> prints \<^verbatim>\<open>Got N files\<close> where \<open>N\<close> is the length of the
  sequence the resolution API returned, null entries included; when the sequence is not
  empty, a colon and a line break follow, and then the entries that are neither null nor
  empty, one per line. \<open>N\<close> is the number of path lines when no entry is null or empty.
  For the empty sequence the output is \<^verbatim>\<open>Got 0 files\<close> and no path.
\<close>

theorem get_prints_count_of_sequence:
  "snd (get w tpl kwargs) =
     [TfGet (drop 4 tpl) kwargs,
      Print (''Got '' @ str_nat (length (tfget w (drop 4 tpl) kwargs)) @ '' files''
               @ (if tfget w (drop 4 tpl) kwargs = [] then []
                  else '':'' @ newline
                         @ join newline (path_lines (tfget w (drop 4 tpl) kwargs))))]
   \<and> path_lines (tfget w (drop 4 tpl) kwargs)
        = map the (filter (\<lambda>f. f \<noteq> None \<and> f \<noteq> Some []) (tfget w (drop 4 tpl) kwargs))
   \<and> ((\<forall>f \<in> set (tfget w (drop 4 tpl) kwargs). f \<noteq> None \<and> f \<noteq> Some [])
         \<longrightarrow> length (path_lines (tfget w (drop 4 tpl) kwargs))
               = length (tfget w (drop 4 tpl) kwargs))"
proof -
  have t: "truthy = (\<lambda>f. f \<noteq> None \<and> f \<noteq> Some [])"
  proof
    fix f show "truthy f = (f \<noteq> None \<and> f \<noteq> Some [])" by (cases f) auto
  qed
  have "path_lines [] = []" by (simp add: path_lines_def)
  then show ?thesis
    using length_path_lines[of "tfget w (drop 4 tpl) kwargs"]
    by (auto simp: get_def get_output_def Let_def t path_lines_def)
qed

theorem get_prints_count_of_sequence_witness:
  "snd (get (demo_world\<lparr>tfget := (\<lambda>t kw. [Some ''a'', Some ''b''])\<rparr>) ''tpl-x'' []) =
     [TfGet ''x'' [], Print (''Got 2 files:'' @ newline @ ''a'' @ newline @ ''b'')]
   \<and> length (path_lines (tfget (demo_world\<lparr>tfget := (\<lambda>t kw. [Some ''a'', Some ''b''])\<rparr>) ''x'' []))
       = 2"
proof -
  let ?w = "demo_world\<lparr>tfget := (\<lambda>t kw. [Some ''a'', Some ''b''])\<rparr>"
  have h: "\<forall>f \<in> set (tfget ?w (drop 4 ''tpl-x'') []). f \<noteq> None \<and> f \<noteq> Some []"
    by simp
  show ?thesis
    using get_prints_count_of_sequence[of ?w "''tpl-x''" "[]"] h
    by (simp add: path_lines_def digit_def)
qed

text \<open>
  Claim C4 as stated fails when the API returns a null entry: for a path and a null, the
  count printed is 2 and one path line follows.
\<close>

theorem get_count_counterexample:
  "get_output [Some ''a'', None] = ''Got 2 files:'' @ newline @ ''a''
   \<and> length (path_lines [Some ''a'', None]) = 1"
  by (simp add: get_output_def path_lines_def newline_def digit_def)

section \<open>The claims about upload\<close>

text \<open>
  Claim C9. The password is checked before the file list: when neither the argument nor
  the environment variable \<^verbatim>\<open>OSF_PASSWORD\<close> gives a non-empty password, \<^verbatim>\<open>upload\<close> raises
  the assertion failure and does nothing else, whatever the \<^verbatim>\<open>files\<close> argument is.
\<close>

theorem upload_password_first:
  assumes "osf_pass a = None \<or> osf_pass a = Some []"
    and "getenv w ''OSF_PASSWORD'' = None \<or> getenv w ''OSF_PASSWORD'' = Some []"
  shows "upload w a = (Some (Inl (AssertionError ''OSF password is not set'')), [])"
  using assms by (auto simp: upload_def resolve_pass_def)

theorem upload_password_first_witness:
  "upload (demo_world\<lparr>getenv := (\<lambda>v. None)\<rparr>) ((demo_args [])\<lparr>files := FNone\<rparr>) =
     (Some (Inl (AssertionError ''OSF password is not set'')), [])"
proof -
  let ?w = "demo_world\<lparr>getenv := (\<lambda>v. None)\<rparr>"
  let ?a = "(demo_args [])\<lparr>files := FNone\<rparr>"
  have h1: "osf_pass ?a = None \<or> osf_pass ?a = Some []"
    by (simp add: demo_defs)
  have h2: "getenv ?w ''OSF_PASSWORD'' = None \<or> getenv ?w ''OSF_PASSWORD'' = Some []"
    by simp
  show ?thesis by (rule upload_password_first[OF h1 h2])
qed

text \<open>
  Claim C2, as amended. With a password, an \<^verbatim>\<open>upload\<close> whose \<^verbatim>\<open>files\<close> argument is
  \<^verbatim>\<open>None\<close> or is not a list prints a message, runs no subprocess and returns.
\<close>

theorem upload_without_file_list:
  assumes "truthy (resolve_pass w a)" and "files a = FNone \<or> files a = FOther"
  shows "upload w a = (Some (Inr ()), [Print ''No files given to upload''])"
  using assms by (auto simp: upload_def)

theorem upload_without_file_list_witness:
  "upload demo_world ((demo_args [])\<lparr>files := FNone\<rparr>)
     = (Some (Inr ()), [Print ''No files given to upload''])"
proof -
  have h1: "truthy (resolve_pass demo_world ((demo_args [])\<lparr>files := FNone\<rparr>))"
    by (simp add: demo_defs)
  have h2: "files ((demo_args [])\<lparr>files := FNone\<rparr>) = FNone
            \<or> files ((demo_args [])\<lparr>files := FNone\<rparr>) = FOther"
    by simp
  show ?thesis by (rule upload_without_file_list[OF h1 h2])
qed

text \<open>
  Claim C2 as stated also covers the empty list. The guard of lines 59 to 61 lets an
  empty list through: the storage client is run with no file, and its non-zero return
  code is raised as usual.
\<close>

theorem upload_empty_list_counterexample:
  "upload (demo_world\<lparr>sp_run := (\<lambda>c. 1)\<rparr>) (demo_args []) =
     (Some (Inl (RuntimeError ''OSF upload error'')), [SpRun [''osf'', ''upload'', ''tpl-x'']])"
  by (simp add: upload_def demo_world_def demo_args_def resolve_pass_def osf_command_def)

text \<open>
  Claim C6. The command line of the subprocess is \<^verbatim>\<open>osf upload\<close>, \<^verbatim>\<open>-f\<close> when forced, then
  for each file argument in order its glob expansion when it contains \<^verbatim>\<open>*\<close> and the
  argument itself otherwise, then the destination. An expansion without a match adds
  nothing and is not checked.
\<close>

theorem upload_command_line:
  assumes "truthy (resolve_pass w a)" and "files a = FList fs"
  shows "\<exists>rest. snd (upload w a) =
           SpRun ([''osf'', ''upload''] @ (if force a then [''-f''] else [])
                    @ concat (map (\<lambda>f. if CHR ''*'' \<in> set f then glob w f else [f]) fs)
                    @ [case osf_dest a of None \<Rightarrow> template a | Some d \<Rightarrow> d]) # rest"
  using upload_starts_with_run[OF assms] by (simp only: osf_command_eq)

theorem upload_command_line_witness:
  "\<exists>rest. snd (upload demo_world (demo_args [''*.nii'', ''c.txt'', ''*.json''])) =
     SpRun [''osf'', ''upload'', ''a.nii'', ''b.nii'', ''c.txt'', ''tpl-x''] # rest"
proof -
  have h1: "truthy (resolve_pass demo_world (demo_args [''*.nii'', ''c.txt'', ''*.json'']))"
    by (simp add: demo_defs)
  have h2: "files (demo_args [''*.nii'', ''c.txt'', ''*.json''])
              = FList [''*.nii'', ''c.txt'', ''*.json'']"
    by (simp add: demo_defs)
  show ?thesis
    using upload_command_line[OF h1 h2] by (simp add: demo_defs)
qed

text \<open>
  Claim C8. When the storage client returns a non-zero code, \<^verbatim>\<open>upload\<close> raises the
  runtime error, and the run of the client is its only effect: no listing is fetched, no
  manifest written, nothing staged, registered or published.
\<close>

theorem upload_subprocess_failure:
  assumes "truthy (resolve_pass w a)" and "files a = FList fs"
    and "sp_run w (osf_command w a fs) \<noteq> 0"
  shows "upload w a =
           (Some (Inl (RuntimeError ''OSF upload error'')), [SpRun (osf_command w a fs)])"
  using assms by (simp add: upload_def Let_def)

theorem upload_subprocess_failure_witness:
  "upload (demo_world\<lparr>sp_run := (\<lambda>c. 2)\<rparr>) (demo_args [''a.nii'']) =
     (Some (Inl (RuntimeError ''OSF upload error'')), [SpRun [''osf'', ''upload'', ''a.nii'', ''tpl-x'']])"
proof -
  let ?w = "demo_world\<lparr>sp_run := (\<lambda>c. 2)\<rparr>"
  have h1: "truthy (resolve_pass ?w (demo_args [''a.nii'']))"
    by (simp add: demo_defs)
  have h2: "files (demo_args [''a.nii'']) = FList [''a.nii'']"
    by (simp add: demo_defs)
  have h3: "sp_run ?w (osf_command ?w (demo_args [''a.nii'']) [''a.nii'']) \<noteq> 0"
    by simp
  show ?thesis
    using upload_subprocess_failure[OF h1 h2 h3] by (simp add: demo_defs osf_command_def)
qed

text \<open>
  Claim C7. When no entry of the top-level listing of the project is named as the
  template, an \<^verbatim>\<open>upload\<close> that gets to the lookup raises the runtime error; and whatever
  the other arguments are, no manifest is written, nothing is staged, registered or
  published, and the subprocess is run at most once.
\<close>

theorem upload_no_destination:
  assumes "\<forall>it \<in> set (json_from_url w (url_from_key w TEMPLATEFLOW_PROJECT_KEY)).
             attr_name it \<noteq> template a"
  shows "(truthy (resolve_pass w a) \<and> files a = FList fs \<and> sp_run w (osf_command w a fs) = 0
            \<longrightarrow> upload w a =
                  (Some (Inl (RuntimeError (''No URL found for template '' @ template a))),
                   [SpRun (osf_command w a fs),
                    JsonFromUrl (url_from_key w TEMPLATEFLOW_PROJECT_KEY)]))
         \<and> (\<forall>e \<in> set (snd (upload w a)). \<not> after_lookup e)
         \<and> length (filter is_SpRun (snd (upload w a))) \<le> 1"
proof -
  have none: "find_url (template a) (json_from_url w (url_from_key w TEMPLATEFLOW_PROJECT_KEY)) = None"
    using assms by (simp add: find_url_None)
  show ?thesis
    using none by (auto simp: upload_def Let_def split: pyfiles.splits)
qed

theorem upload_no_destination_witness:
  "upload demo_world ((demo_args [''a.nii''])\<lparr>template := ''tpl-y''\<rparr>) =
     (Some (Inl (RuntimeError ''No URL found for template tpl-y'')),
      [SpRun [''osf'', ''upload'', ''a.nii'', ''tpl-y''], JsonFromUrl ''osf:ue5gx''])"
proof -
  let ?a = "(demo_args [''a.nii''])\<lparr>template := ''tpl-y''\<rparr>"
  have h: "\<forall>it \<in> set (json_from_url demo_world (url_from_key demo_world TEMPLATEFLOW_PROJECT_KEY)).
             attr_name it \<noteq> template ?a"
    by (simp add: demo_defs)
  have r: "truthy (resolve_pass demo_world ?a) \<and> files ?a = FList [''a.nii'']
             \<and> sp_run demo_world (osf_command demo_world ?a [''a.nii'']) = 0"
    by (simp add: demo_defs)
  show ?thesis
    using upload_no_destination[OF h, of "[''a.nii'']"] r
    by (simp add: demo_defs osf_command_def)
qed

text \<open>
  Claim C1. Let the folder of the template be a finite tree of folders and files that
  the listing API mirrors. An \<^verbatim>\<open>upload\<close> that gets to the traversal comes back from it, and
  writes one manifest. Its text is the header \<^verbatim>\<open>name,link\<close>, then, each after a line break,
  the rows \<^verbatim>\<open>name,link\<close> (name, comma, download link) of the files whose name contains the
  template identifier, in the order of the queue: one row for each such file of the tree,
  and no other row.
\<close>

theorem manifest_of_listing:
  assumes "truthy (resolve_pass w a)" and "files a = FList fs"
    and "sp_run w (osf_command w a fs) = 0"
    and "find_url (template a) (json_from_url w (url_from_key w TEMPLATEFLOW_PROJECT_KEY)) = Some url"
    and "json_from_url w url = map root_item ts"
    and "\<forall>t \<in> set ts. mirrors w t"
  shows "\<exists>rows.
           filter is_WriteText (snd (upload w a)) =
             [WriteText (''tfupload-'' @ uuid4 w @ ''.csv'')
                (''name,link'' @ concat (map (\<lambda>r. CHR 0x0A # r) rows))]
           \<and> rows = map (\<lambda>it. attr_name it @ '','' @ link_download it)
                      (filter (\<lambda>it. sublist (template a) (attr_name it)) (bfs_files ts))
           \<and> mset rows =
               image_mset (\<lambda>it. attr_name it @ '','' @ link_download it)
                 (filter_mset (\<lambda>it. sublist (template a) (attr_name it))
                    (mset (concat (map files_of ts))))
           \<and> fst (upload w a) \<noteq> None"
proof -
  let ?rows = "map (\<lambda>it. attr_name it @ '','' @ link_download it)
                 (filter (\<lambda>it. sublist (template a) (attr_name it)) (bfs_files ts))"
  from upload_on_tree[OF assms] obtain evs where
    evs: "\<forall>e \<in> set evs. is_JsonFromUrl e"
    and up: "upload w a =
     ((case dropWhile (is_file w) fs of
         [] \<Rightarrow> Some (Inr ()) | f # rest \<Rightarrow> Some (Inl (OSError f))),
      ([SpRun (osf_command w a fs), JsonFromUrl (url_from_key w TEMPLATEFLOW_PROJECT_KEY),
        JsonFromUrl url] @ evs)
         @ [WriteText (''tfupload-'' @ uuid4 w @ ''.csv'')
              (''name,link'' @ concat (map (\<lambda>r. CHR 0x0A # r) ?rows)),
            Mkdtemp (mkdtemp w)]
         @ map (\<lambda>f. Copy2 f (mkdtemp w)) (takeWhile (is_file w) fs)
         @ (case dropWhile (is_file w) fs of
              [] \<Rightarrow> [AddUrls (''tfupload-'' @ uuid4 w @ ''.csv'') ''{link}'' ''{name}'' (message a),
                      Publish]
            | f # rest \<Rightarrow> []))"
    by blast
  have written: "filter is_WriteText (snd (upload w a)) =
          [WriteText (''tfupload-'' @ uuid4 w @ ''.csv'')
             (''name,link'' @ concat (map (\<lambda>r. CHR 0x0A # r) ?rows))]"
    by (cases "dropWhile (is_file w) fs")
       (simp_all add: up no_write_in_listing_events[OF evs] no_write_in_copies
          del: dropWhile_eq_Nil_conv)
  have each: "mset ?rows =
               image_mset (\<lambda>it. attr_name it @ '','' @ link_download it)
                 (filter_mset (\<lambda>it. sublist (template a) (attr_name it))
                    (mset (concat (map files_of ts))))"
    by (simp only: mset_map mset_filter mset_bfs_files)
  have returns: "fst (upload w a) \<noteq> None"
    by (cases "dropWhile (is_file w) fs") (simp_all add: up del: dropWhile_eq_Nil_conv)
  from written each returns show ?thesis by blast
qed

theorem manifest_of_listing_witness:
  "filter is_WriteText (snd (upload demo_world (demo_args [''a.nii'']))) =
     [WriteText ''tfupload-1b4e28ba.csv''
        (''name,link'' @ CHR 0x0A # ''tpl-x_T1w.nii,d1'' @ CHR 0x0A # ''tpl-x_desc.json,d4''
           @ CHR 0x0A # ''tpl-x_mask.nii,d3'')]
   \<and> fst (upload demo_world (demo_args [''a.nii''])) \<noteq> None"
proof -
  have h1: "truthy (resolve_pass demo_world (demo_args [''a.nii'']))"
    by (simp add: demo_defs)
  have h2: "files (demo_args [''a.nii'']) = FList [''a.nii'']"
    by (simp add: demo_defs)
  have h3: "sp_run demo_world (osf_command demo_world (demo_args [''a.nii'']) [''a.nii'']) = 0"
    by (simp add: demo_defs)
  have h4: "find_url (template (demo_args [''a.nii'']))
              (json_from_url demo_world (url_from_key demo_world TEMPLATEFLOW_PROJECT_KEY))
            = Some ''m1''"
    by (simp add: demo_defs)
  have h5: "json_from_url demo_world ''m1'' = map root_item demo_forest"
    by (simp add: demo_defs)
  have h6: "\<forall>t \<in> set demo_forest. mirrors demo_world t"
    by (simp add: demo_defs)
  have rows: "map (\<lambda>it. attr_name it @ '','' @ link_download it)
                (filter (\<lambda>it. sublist (template (demo_args [''a.nii''])) (attr_name it))
                   (bfs_files demo_forest))
              = [''tpl-x_T1w.nii,d1'', ''tpl-x_desc.json,d4'', ''tpl-x_mask.nii,d3'']"
    by (simp add: demo_defs sublist_code)
  show ?thesis
    using manifest_of_listing[OF h1 h2 h3 h4 h5 h6] rows
    by (auto simp: demo_defs)
qed

text \<open>
  Claim C10, as amended. The staging step copies the file arguments as given, in order,
  not their expansions. When the upload gets to staging (the folder of the template being a
  finite tree that the listing API mirrors) and an argument with a \<^verbatim>\<open>*\<close> names no file,
  staging raises at the first argument that names no file, after copying the arguments
  before it; that is the argument with the \<^verbatim>\<open>*\<close> when all the arguments before it name
  files. The subprocess had been given, in the place of that argument, its expansion.
\<close>

theorem staging_copies_given_arguments:
  assumes "truthy (resolve_pass w a)" and "files a = FList fs"
    and "sp_run w (osf_command w a fs) = 0"
    and "find_url (template a) (json_from_url w (url_from_key w TEMPLATEFLOW_PROJECT_KEY)) = Some url"
    and "json_from_url w url = map root_item ts"
    and "\<forall>t \<in> set ts. mirrors w t"
    and "f \<in> set fs" and "CHR ''*'' \<in> set f" and "\<not> is_file w f"
  shows "(\<exists>pre g post. fs = pre @ g # post \<and> (\<forall>p \<in> set pre. is_file w p) \<and> \<not> is_file w g
            \<and> fst (upload w a) = Some (Inl (OSError g))
            \<and> filter is_Copy2 (snd (upload w a)) = map (\<lambda>p. Copy2 p (mkdtemp w)) pre)
         \<and> ((\<forall>p \<in> set (takeWhile (\<lambda>p. p \<noteq> f) fs). is_file w p)
               \<longrightarrow> fst (upload w a) = Some (Inl (OSError f)))
         \<and> (\<forall>ys zs. fs = ys @ f # zs \<longrightarrow>
               (\<exists>rest. snd (upload w a) =
                  SpRun ([''osf'', ''upload''] @ (if force a then [''-f''] else [])
                          @ concat (map (\<lambda>f. if CHR ''*'' \<in> set f then glob w f else [f]) ys)
                          @ glob w f
                          @ concat (map (\<lambda>f. if CHR ''*'' \<in> set f then glob w f else [f]) zs)
                          @ [case osf_dest a of None \<Rightarrow> template a | Some d \<Rightarrow> d]) # rest))"
proof -
  from upload_on_tree[OF assms(1-6)] obtain evs where
    evs: "\<forall>e \<in> set evs. is_JsonFromUrl e"
    and up: "upload w a =
     ((case dropWhile (is_file w) fs of
         [] \<Rightarrow> Some (Inr ()) | f # rest \<Rightarrow> Some (Inl (OSError f))),
      ([SpRun (osf_command w a fs), JsonFromUrl (url_from_key w TEMPLATEFLOW_PROJECT_KEY),
        JsonFromUrl url] @ evs)
         @ [WriteText (''tfupload-'' @ uuid4 w @ ''.csv'')
              (''name,link'' @ concat (map (\<lambda>r. CHR 0x0A # r)
                 (map (\<lambda>it. attr_name it @ '','' @ link_download it)
                    (filter (\<lambda>it. sublist (template a) (attr_name it)) (bfs_files ts))))),
            Mkdtemp (mkdtemp w)]
         @ map (\<lambda>f. Copy2 f (mkdtemp w)) (takeWhile (is_file w) fs)
         @ (case dropWhile (is_file w) fs of
              [] \<Rightarrow> [AddUrls (''tfupload-'' @ uuid4 w @ ''.csv'') ''{link}'' ''{name}'' (message a),
                      Publish]
            | f # rest \<Rightarrow> []))"
    by blast
  have ne: "dropWhile (is_file w) fs \<noteq> []"
    using assms(7,9) by auto
  then obtain g post where dw: "dropWhile (is_file w) fs = g # post"
    by (cases "dropWhile (is_file w) fs") auto
  have split: "fs = takeWhile (is_file w) fs @ g # post"
    using takeWhile_dropWhile_id[of "is_file w" fs] dw by simp
  have pre: "\<forall>p \<in> set (takeWhile (is_file w) fs). is_file w p"
    by (auto dest: set_takeWhileD)
  have g: "\<not> is_file w g"
    using dw hd_dropWhile[OF ne] by simp
  have res: "fst (upload w a) = Some (Inl (OSError g))"
    by (simp add: up dw)
  have copies: "filter is_Copy2 (snd (upload w a))
               = map (\<lambda>p. Copy2 p (mkdtemp w)) (takeWhile (is_file w) fs)"
    by (simp add: up dw no_copy_in_listing_events[OF evs] all_copies)
  have first: "\<exists>pre g post. fs = pre @ g # post \<and> (\<forall>p \<in> set pre. is_file w p) \<and> \<not> is_file w g
            \<and> fst (upload w a) = Some (Inl (OSError g))
            \<and> filter is_Copy2 (snd (upload w a)) = map (\<lambda>p. Copy2 p (mkdtemp w)) pre"
    using split pre g res copies by blast
  have second: "fst (upload w a) = Some (Inl (OSError f))"
    if before: "\<forall>p \<in> set (takeWhile (\<lambda>p. p \<noteq> f) fs). is_file w p"
  proof -
    have "dropWhile (\<lambda>p. p \<noteq> f) fs \<noteq> []" using assms(7) by auto
    then obtain post' where "dropWhile (\<lambda>p. p \<noteq> f) fs = f # post'"
      using hd_dropWhile[of "\<lambda>p. p \<noteq> f" fs] by (cases "dropWhile (\<lambda>p. p \<noteq> f) fs") auto
    then have sp: "fs = takeWhile (\<lambda>p. p \<noteq> f) fs @ f # post'"
      using takeWhile_dropWhile_id[of "\<lambda>p. p \<noteq> f" fs] by simp
    have "dropWhile (is_file w) (takeWhile (\<lambda>p. p \<noteq> f) fs @ f # post') = f # post'"
      using before assms(9) by (simp add: dropWhile_append2)
    with sp have "dropWhile (is_file w) fs = f # post'" by simp
    then show ?thesis by (simp add: up)
  qed
  have third: "\<exists>rest. snd (upload w a) =
                  SpRun ([''osf'', ''upload''] @ (if force a then [''-f''] else [])
                          @ concat (map (\<lambda>f. if CHR ''*'' \<in> set f then glob w f else [f]) ys)
                          @ glob w f
                          @ concat (map (\<lambda>f. if CHR ''*'' \<in> set f then glob w f else [f]) zs)
                          @ [case osf_dest a of None \<Rightarrow> template a | Some d \<Rightarrow> d]) # rest"
    if fs: "fs = ys @ f # zs" for ys zs
  proof -
    have cmd: "osf_command w a fs =
                 [''osf'', ''upload''] @ (if force a then [''-f''] else [])
                   @ concat (map (\<lambda>f. if CHR ''*'' \<in> set f then glob w f else [f]) ys)
                   @ glob w f
                   @ concat (map (\<lambda>f. if CHR ''*'' \<in> set f then glob w f else [f]) zs)
                   @ [case osf_dest a of None \<Rightarrow> template a | Some d \<Rightarrow> d]"
      using assms(8) by (simp add: osf_command_eq fs)
    from upload_starts_with_run[OF assms(1,2)] obtain rest
      where "snd (upload w a) = SpRun (osf_command w a fs) # rest" by blast
    then show ?thesis by (simp only: cmd) (intro exI, rule refl)
  qed
  show ?thesis using first second third by blast
qed

theorem staging_copies_given_arguments_witness:
  "fst (upload demo_world (demo_args [''a.nii'', ''*.nii''])) = Some (Inl (OSError ''*.nii''))
   \<and> filter is_Copy2 (snd (upload demo_world (demo_args [''a.nii'', ''*.nii''])))
       = [Copy2 ''a.nii'' ''/tmp/tmpq'']
   \<and> (\<exists>rest. snd (upload demo_world (demo_args [''a.nii'', ''*.nii''])) =
         SpRun [''osf'', ''upload'', ''a.nii'', ''a.nii'', ''b.nii'', ''tpl-x''] # rest)"
proof -
  let ?w = demo_world
  let ?fs = "[''a.nii'', ''*.nii'']"
  let ?a = "demo_args ?fs"
  have h1: "truthy (resolve_pass ?w ?a)"
    by (simp add: demo_defs)
  have h2: "files ?a = FList ?fs"
    by (simp add: demo_defs)
  have h3: "sp_run ?w (osf_command ?w ?a ?fs) = 0"
    by (simp add: demo_defs)
  have h4: "find_url (template ?a) (json_from_url ?w (url_from_key ?w TEMPLATEFLOW_PROJECT_KEY))
            = Some ''m1''"
    by (simp add: demo_defs)
  have h5: "json_from_url ?w ''m1'' = map root_item demo_forest"
    by (simp add: demo_defs)
  have h6: "\<forall>t \<in> set demo_forest. mirrors ?w t"
    by (simp add: demo_defs)
  have h7: "''*.nii'' \<in> set ?fs" by simp
  have h8: "CHR ''*'' \<in> set ''*.nii''" by simp
  have h9: "\<not> is_file ?w ''*.nii''" by (simp add: demo_defs)
  have before: "\<forall>p \<in> set (takeWhile (\<lambda>p. p \<noteq> ''*.nii'') ?fs). is_file ?w p"
    by (simp add: demo_defs)
  have pos: "?fs = [''a.nii''] @ ''*.nii'' # []" by simp
  note inst = staging_copies_given_arguments[OF h1 h2 h3 h4 h5 h6 h7 h8 h9]
  from inst before have err: "fst (upload ?w ?a) = Some (Inl (OSError ''*.nii''))"
    by blast
  from inst obtain pre g post where
    sp: "?fs = pre @ g # post" and allf: "\<forall>p \<in> set pre. is_file ?w p" and g: "\<not> is_file ?w g"
    and eg: "fst (upload ?w ?a) = Some (Inl (OSError g))"
    and copies: "filter is_Copy2 (snd (upload ?w ?a)) = map (\<lambda>p. Copy2 p (mkdtemp ?w)) pre"
    by blast
  from eg err have "g = ''*.nii''" by simp
  with sp allf have "pre = [''a.nii'']"
    by (cases pre) (auto simp: demo_defs Cons_eq_append_conv)
  with copies have c: "filter is_Copy2 (snd (upload ?w ?a)) = [Copy2 ''a.nii'' ''/tmp/tmpq'']"
    by (simp add: demo_defs)
  from inst pos have "\<exists>rest. snd (upload ?w ?a) =
      SpRun ([''osf'', ''upload''] @ (if force ?a then [''-f''] else [])
              @ concat (map (\<lambda>f. if CHR ''*'' \<in> set f then glob ?w f else [f]) [''a.nii''])
              @ glob ?w ''*.nii''
              @ concat (map (\<lambda>f. if CHR ''*'' \<in> set f then glob ?w f else [f]) [])
              @ [case osf_dest ?a of None \<Rightarrow> template ?a | Some d \<Rightarrow> d]) # rest"
    by blast
  then have r: "\<exists>rest. snd (upload ?w ?a) =
         SpRun [''osf'', ''upload'', ''a.nii'', ''a.nii'', ''b.nii'', ''tpl-x''] # rest"
    by (simp add: demo_defs)
  from err c r show ?thesis by blast
qed

text \<open>
  Claim C10 as stated says that staging raises when copying the argument with the
  \<^verbatim>\<open>*\<close>. When an earlier argument names no file, the error is raised there, and the
  argument with the \<^verbatim>\<open>*\<close> is never copied: the whole run for the arguments
  \<^verbatim>\<open>c.txt\<close> (missing) and \<^verbatim>\<open>*.nii\<close>.
\<close>

theorem staging_error_counterexample:
  "CHR ''*'' \<in> set ''*.nii'' \<and> \<not> is_file demo_world ''*.nii''
   \<and> upload demo_world (demo_args [''c.txt'', ''*.nii'']) =
       (Some (Inl (OSError ''c.txt'')),
        [SpRun [''osf'', ''upload'', ''c.txt'', ''a.nii'', ''b.nii'', ''tpl-x''],
         JsonFromUrl ''osf:ue5gx'', JsonFromUrl ''m1'', JsonFromUrl ''m2'',
         WriteText ''tfupload-1b4e28ba.csv''
           (''name,link'' @ CHR 0x0A # ''tpl-x_T1w.nii,d1'' @ CHR 0x0A # ''tpl-x_desc.json,d4''
              @ CHR 0x0A # ''tpl-x_mask.nii,d3''),
         Mkdtemp ''/tmp/tmpq''])"
  by (simp add: upload_def Let_def demo_defs osf_command_def traverse.simps startswith_def
        newline_def)

end
